theory Spec2Isabelle
  imports Main
begin

section \<open>The state of the App component\<close>

text \<open>
  The component \<open>App\<close> of \<open>src/script.js\<close> keeps six React state variables and one ref to
  the audio element; the browser keeps the table of active intervals. All of it is one
  record here. JavaScript numbers are modelled as \<open>int\<close>: every number the component
  stores is an integer (a count of minutes or of seconds) that the handlers add 1 to,
  subtract 1 from or multiply by 60, far below \<open>2 ^ 53\<close>, where this arithmetic on doubles
  is exact. The division in \<open>timeFormat\<close> is the one operation that rounds; its model
  spells the rounding out.

  The audio element is an opaque device: the record keeps the list of operations issued
  on \<open>audioRef.current\<close>, oldest first.
\<close>

datatype audio_op = SetCurrentTime int | Play | Pause

text \<open>
  The arrow function handed to \<open>setInterval\<close> (lines 95 to 112) closes over the constants
  \<open>breakLength\<close> and \<open>sessionLength\<close> of the render in which \<open>startTimer\<close> was created, and
  over the local variable \<open>breakOnVar\<close>, which it assigns.
\<close>

record closure =
  cl_breakLength :: int
  cl_sessionLength :: int
  breakOnVar :: bool

text \<open>
  \<open>timerOn\<close> holds \<open>false\<close> (\<open>None\<close>) or the handle returned by \<open>setInterval\<close>.
  \<open>intervals\<close> is the browser's table of active intervals and \<open>nextHandle\<close> the handle
  the next \<open>setInterval\<close> returns.
\<close>

record app =
  displayTime :: int
  breakLength :: int
  sessionLength :: int
  timerOn :: "nat option"
  breakOn :: bool
  darkMode :: bool
  audioRef :: "audio_op list"
  intervals :: "(nat \<times> closure) list"
  nextHandle :: nat

text \<open>The \<open>useState\<close> initial values of lines 8 to 13; no interval exists at mount.\<close>

definition init_app :: app where
  "init_app = \<lparr>displayTime = 25 * 60, breakLength = 5, sessionLength = 25,
     timerOn = None, breakOn = False, darkMode = False, audioRef = [],
     intervals = [], nextHandle = 1\<rparr>"

section \<open>Browser primitives\<close>

text \<open>\<open>if (timerOn)\<close>: \<open>false\<close> and the number 0 are falsy, every other handle is truthy.\<close>

definition truthy :: "nat option \<Rightarrow> bool" where
  "truthy t = (case t of None \<Rightarrow> False | Some h \<Rightarrow> h \<noteq> 0)"

text \<open>
  \<open>clearInterval\<close> converts its argument to a number: \<open>false\<close> becomes 0, \<open>true\<close> becomes 1.
\<close>

definition handle_of_timerOn :: "nat option \<Rightarrow> nat" where
  "handle_of_timerOn t = (case t of None \<Rightarrow> 0 | Some h \<Rightarrow> h)"

definition handle_of_bool :: "bool \<Rightarrow> nat" where
  "handle_of_bool b = (if b then 1 else 0)"

definition setInterval :: "closure \<Rightarrow> app \<Rightarrow> nat \<times> app" where
  "setInterval c s =
     (nextHandle s,
      s\<lparr>intervals := intervals s @ [(nextHandle s, c)], nextHandle := Suc (nextHandle s)\<rparr>)"

definition clearInterval :: "nat \<Rightarrow> app \<Rightarrow> app" where
  "clearInterval h s = s\<lparr>intervals := filter (\<lambda>(i, c). i \<noteq> h) (intervals s)\<rparr>"

section \<open>timeFormat\<close>

text \<open>
  A JavaScript number is an IEEE 754 double. The argument of \<open>timeFormat\<close> is a count of
  seconds, so the model takes an integer; the integers that are doubles are those below
  \<open>2 ^ 1024\<close> in magnitude whose binary digits, from the 54th on, are all zero.
\<close>

fun bits :: "nat \<Rightarrow> nat" where
  "bits n = (if n = 0 then 0 else Suc (bits (n div 2)))"

declare bits.simps [simp del]

definition is_double :: "int \<Rightarrow> bool" where
  "is_double n = (\<bar>n\<bar> < 2 ^ 1024 \<and> \<bar>n\<bar> mod 2 ^ (bits (nat \<bar>n\<bar>) - 53) = 0)"

text \<open>
  The operator \<open>/\<close> returns the double nearest to the exact quotient, a tie going to the
  even significand. For positive integers \<open>a\<close> and \<open>b\<close>, \<open>number_div a b\<close> is that double
  as a pair \<open>(m, k)\<close> standing for \<open>m / 2 ^ k\<close> (for \<open>m * 2 ^ (- k)\<close> when \<open>k\<close> is negative):
  \<open>k\<close> is chosen so that the quotient scaled by \<open>2 ^ k\<close> lies between \<open>2 ^ 52\<close> and \<open>2 ^ 53\<close>,
  and \<open>m\<close> is the scaled quotient rounded to an integer (a quotient of integers that are
  doubles, the divisor below \<open>2 ^ 53\<close>, is never subnormal).
\<close>

definition round_half_even :: "int \<Rightarrow> int \<Rightarrow> int" where
  "round_half_even n d =
     (let q = n div d; r = n mod d
      in if 2 * r < d then q else if d < 2 * r then q + 1
         else if even q then q else q + 1)"

definition number_div :: "int \<Rightarrow> int \<Rightarrow> int \<times> int" where
  "number_div a b =
     (let k0 = 53 + int (bits (nat b)) - int (bits (nat a));
          k = (if a * 2 ^ nat k0 < b * 2 ^ nat (- k0) * 2 ^ 53 then k0 else k0 - 1)
      in (round_half_even (a * 2 ^ nat k) (b * 2 ^ nat (- k)), k))"

text \<open>\<open>Math.floor(a / b)\<close> for an integer \<open>a\<close> and a positive integer \<open>b\<close>.\<close>

definition Math_floor_div :: "int \<Rightarrow> int \<Rightarrow> int" where
  "Math_floor_div a b =
     (if a = 0 then 0
      else let (m, k) = number_div \<bar>a\<bar> b
           in (sgn a * m * 2 ^ nat (- k)) div 2 ^ nat k)"

text \<open>
  \<open>Number.prototype.toString\<close> on an integer. Below \<open>2 ^ 53\<close> in magnitude it prints every
  decimal digit, \<open>-\<close> first when negative. From \<open>2 ^ 53\<close> on it prints the shortest digits
  that read back as the same double, and from \<open>10 ^ 21\<close> on it uses exponent notation:
  that range is not modelled, and the result there is \<open>None\<close>.
\<close>

fun digits :: "nat \<Rightarrow> string" where
  "digits n = (if n < 10 then [''0123456789'' ! n]
               else digits (n div 10) @ [''0123456789'' ! (n mod 10)])"

declare digits.simps [simp del]

definition toString :: "int \<Rightarrow> string option" where
  "toString i =
     (if \<bar>i\<bar> < 2 ^ 53
      then Some (if i < 0 then CHR ''-'' # digits (nat (- i)) else digits (nat i))
      else None)"

text \<open>
  \<open>String.prototype.padStart\<close>: a string already of the target length or longer is returned
  as it is; otherwise the pad string is repeated in front and cut to fit.
\<close>

definition padStart :: "nat \<Rightarrow> string \<Rightarrow> string \<Rightarrow> string" where
  "padStart targetLength padString str =
     (if targetLength \<le> length str \<or> padString = [] then str
      else take (targetLength - length str)
             (concat (replicate (targetLength - length str) padString)) @ str)"

text \<open>
  The operator \<open>%\<close>: the remainder takes the sign of the dividend; on doubles it is exact.
\<close>

definition js_rem :: "int \<Rightarrow> int \<Rightarrow> int" where
  "js_rem a b = (if a < 0 then - ((- a) mod \<bar>b\<bar>) else a mod \<bar>b\<bar>)"

text \<open>
  Lines 44 to 50, for an integer \<open>time\<close> that is a double. The result is \<open>None\<close> where
  \<open>toString\<close> is not modelled.
\<close>

definition timeFormat :: "int \<Rightarrow> string option" where
  "timeFormat time =
     (case toString (Math_floor_div time 60) of
        None \<Rightarrow> None
      | Some m \<Rightarrow>
          (case toString (js_rem time 60) of
             None \<Rightarrow> None
           | Some sec \<Rightarrow>
               (let minutes = padStart 2 ''0'' m;
                    seconds = padStart 2 ''0'' sec
                in Some (minutes @ '':'' @ seconds))))"

text \<open>
  The format as the specification words it: minutes and seconds by floor division and
  modulus, each written with two digits (more when the number has more), joined by a colon.
\<close>

definition two_digits :: "int \<Rightarrow> string" where
  "two_digits n =
     (if n < 100 then [''0123456789'' ! nat (n div 10), ''0123456789'' ! nat (n mod 10)]
      else digits (nat n))"

definition format_spec :: "int \<Rightarrow> string" where
  "format_spec seconds = two_digits (seconds div 60) @ '':'' @ two_digits (seconds mod 60)"

text \<open>The number a string of decimal digits denotes.\<close>

definition digit_value :: "char \<Rightarrow> nat" where
  "digit_value c = of_char c - 48"

definition decimal_value :: "string \<Rightarrow> nat" where
  "decimal_value str = foldl (\<lambda>v c. 10 * v + digit_value c) 0 str"

section \<open>The handlers\<close>

text \<open>
  A handler reads the state of the render it was created in and queues updates; React
  renders again before the next event, so a handler always sees the current state. Each
  handler is a function from the state before the event to the state after it.
\<close>

text \<open>Lines 64 to 77.\<close>

definition handleIncrementDecrement :: "string \<Rightarrow> int \<Rightarrow> app \<Rightarrow> app" where
  "handleIncrementDecrement type amount s =
     (if type = ''break'' then
        (if breakLength s \<le> 1 \<or> breakLength s \<ge> 60 then s
         else s\<lparr>breakLength := breakLength s + amount\<rparr>)
      else if type = ''session'' then
        (if sessionLength s \<le> 1 \<or> sessionLength s \<ge> 60 then s
         else s\<lparr>sessionLength := sessionLength s + amount,
                displayTime := (sessionLength s + amount) * 60\<rparr>)
      else s)"

text \<open>Lines 146 to 149.\<close>

definition playAudio :: "app \<Rightarrow> app" where
  "playAudio s = s\<lparr>audioRef := audioRef s @ [SetCurrentTime 0, Play]\<rparr>"

text \<open>
  Lines 95 to 112: one firing of the interval with handle \<open>h\<close> and closure \<open>c\<close>. The updater
  passed to \<open>setDisplayTime\<close> receives the current \<open>displayTime\<close> as \<open>prev\<close>; it is applied
  once per firing. An assignment to \<open>breakOnVar\<close> is stored back into the closure.
\<close>

definition set_breakOnVar :: "nat \<Rightarrow> bool \<Rightarrow> app \<Rightarrow> app" where
  "set_breakOnVar h b s =
     s\<lparr>intervals := map (\<lambda>(i, c). if i = h then (i, c\<lparr>breakOnVar := b\<rparr>) else (i, c))
                        (intervals s)\<rparr>"

definition interval_callback :: "nat \<Rightarrow> closure \<Rightarrow> app \<Rightarrow> app" where
  "interval_callback h c s =
     (let prev = displayTime s in
      if prev = 0 \<and> \<not> breakOnVar c then
        (set_breakOnVar h True (playAudio s))
          \<lparr>breakOn := True, displayTime := cl_breakLength c * 60\<rparr>
      else if prev = 0 \<and> breakOnVar c then
        (set_breakOnVar h False (playAudio s))
          \<lparr>breakOn := False, displayTime := cl_sessionLength c * 60\<rparr>
      else s\<lparr>displayTime := prev - 1\<rparr>)"

text \<open>Lines 89 to 115.\<close>

definition startTimer :: "app \<Rightarrow> app" where
  "startTimer s =
     (if truthy (timerOn s) then
        (clearInterval (handle_of_timerOn (timerOn s)) s)\<lparr>timerOn := None\<rparr>
      else
        (let (interval, s') =
               setInterval \<lparr>cl_breakLength = breakLength s,
                            cl_sessionLength = sessionLength s,
                            breakOnVar = breakOn s\<rparr> s
         in s'\<lparr>timerOn := Some interval\<rparr>))"

text \<open>Lines 124 to 134. \<open>timerOn\<close> and \<open>breakOn\<close> are read from the state before the call.\<close>

definition reset :: "app \<Rightarrow> app" where
  "reset s =
     (let s1 = s\<lparr>breakLength := 5, sessionLength := 25, displayTime := 25 * 60,
                 timerOn := None, breakOn := False\<rparr>;
          s2 = clearInterval (handle_of_timerOn (timerOn s)) s1;
          s3 = clearInterval (handle_of_bool (breakOn s)) s2
      in s3\<lparr>audioRef := audioRef s3 @ [Pause, SetCurrentTime 0]\<rparr>)"

text \<open>Lines 19 to 21.\<close>

definition toggleDarkMode :: "app \<Rightarrow> app" where
  "toggleDarkMode s = s\<lparr>darkMode := \<not> darkMode s\<rparr>"

section \<open>Events\<close>

text \<open>
  The events the component can receive: a click on one of the seven buttons of the markup
  (lines 186 to 268, each with the handler call of its \<open>onClick\<close>), and the browser firing
  the interval with a given handle. A handle that is not in the table of active intervals
  never fires: that is what \<open>clearInterval\<close> guarantees.
\<close>

datatype event =
    BreakIncrement | BreakDecrement | SessionIncrement | SessionDecrement
  | StartStop | Reset | DarkModeToggle | IntervalFires nat

fun dispatch :: "event \<Rightarrow> app \<Rightarrow> app" where
  "dispatch BreakIncrement s = handleIncrementDecrement ''break'' 1 s"
| "dispatch BreakDecrement s = handleIncrementDecrement ''break'' (- 1) s"
| "dispatch SessionIncrement s = handleIncrementDecrement ''session'' 1 s"
| "dispatch SessionDecrement s = handleIncrementDecrement ''session'' (- 1) s"
| "dispatch StartStop s = startTimer s"
| "dispatch Reset s = reset s"
| "dispatch DarkModeToggle s = toggleDarkMode s"
| "dispatch (IntervalFires h) s =
     (case map_of (intervals s) h of None \<Rightarrow> s | Some c \<Rightarrow> interval_callback h c s)"

fun run :: "event list \<Rightarrow> app \<Rightarrow> app" where
  "run [] s = s"
| "run (e # es) s = run es (dispatch e s)"

text \<open>The engine is running when \<open>timerOn\<close> is truthy (line 91).\<close>

definition running :: "app \<Rightarrow> bool" where
  "running s = truthy (timerOn s)"

text \<open>The number of Notifier calls so far: the number of \<open>play()\<close> calls on the audio element.\<close>

definition notifications :: "app \<Rightarrow> nat" where
  "notifications s = length (filter (\<lambda>x. x = Play) (audioRef s))"

text \<open>
  The timer bookkeeping is consistent when the table of active intervals holds exactly the
  interval \<open>timerOn\<close> names (none when \<open>timerOn\<close> is \<open>false\<close>), handles are positive, and the
  closure's \<open>breakOnVar\<close> agrees with \<open>breakOn\<close>.
\<close>

definition timer_consistent :: "app \<Rightarrow> bool" where
  "timer_consistent s =
     (0 < nextHandle s \<and>
      map fst (intervals s) = (case timerOn s of None \<Rightarrow> [] | Some h \<Rightarrow> [h]) \<and>
      (case timerOn s of None \<Rightarrow> True | Some h \<Rightarrow> 0 < h) \<and>
      list_all (\<lambda>(i, c). breakOnVar c = breakOn s) (intervals s))"

text \<open>The numeric ranges the component keeps its numbers in.\<close>

definition in_bounds :: "app \<Rightarrow> bool" where
  "in_bounds s =
     (0 \<le> displayTime s \<and>
      1 \<le> breakLength s \<and> breakLength s \<le> 60 \<and>
      1 \<le> sessionLength s \<and> sessionLength s \<le> 60 \<and>
      list_all (\<lambda>(i, c). 1 \<le> cl_breakLength c \<and> cl_breakLength c \<le> 60 \<and>
                         1 \<le> cl_sessionLength c \<and> cl_sessionLength c \<le> 60) (intervals s))"

section \<open>Basic facts\<close>

lemma run_append: "run (xs @ ys) s = run ys (run xs s)"
  by (induction xs arbitrary: s) simp_all


lemma replicate_snoc: "replicate (Suc n) x = replicate n x @ [x]"
  by (simp add: replicate_append_same)

subsection \<open>Decimal digits\<close>

lemma digits_lt10: "n < 10 \<Longrightarrow> digits n = [''0123456789'' ! n]"
  by (simp add: digits.simps)

lemma digits_ge10: "10 \<le> n \<Longrightarrow> digits n = digits (n div 10) @ [''0123456789'' ! (n mod 10)]"
  by (subst digits.simps) simp

lemma length_digits_ge2: "10 \<le> n \<Longrightarrow> 2 \<le> length (digits n)"
  by (subst digits.simps) (simp add: digits.simps[of "n div 10"])

lemma digits_two:
  "10 \<le> n \<Longrightarrow> n < 100 \<Longrightarrow>
     digits n = [''0123456789'' ! (n div 10), ''0123456789'' ! (n mod 10)]"
  by (simp add: digits_ge10 digits_lt10)

lemma pad_two_digits:
  assumes n: "0 \<le> n"
  shows "padStart 2 ''0'' (digits (nat n)) = two_digits n"
proof -
  consider "n < 10" | "10 \<le> n" "n < 100" | "100 \<le> n" by linarith
  then show ?thesis
  proof cases
    case 1
    with n have "nat n < 10" "n div 10 = 0" "n mod 10 = n" by simp_all
    with n 1 show ?thesis
      by (simp add: padStart_def two_digits_def digits_lt10)
  next
    case 2
    with n have a: "10 \<le> nat n" "nat n < 100" by simp_all
    have "nat n div 10 = nat (n div 10)" "nat n mod 10 = nat (n mod 10)"
      using n by (simp_all add: nat_div_distrib nat_mod_distrib)
    with n 2 a show ?thesis
      by (simp add: padStart_def two_digits_def digits_two)
  next
    case 3
    with n have "10 \<le> nat n" by simp
    then have "2 \<le> length (digits (nat n))" by (rule length_digits_ge2)
    with n 3 show ?thesis
      by (simp add: padStart_def two_digits_def)
  qed
qed

lemma toString_safe: "0 \<le> n \<Longrightarrow> n < 2 ^ 53 \<Longrightarrow> toString n = Some (digits (nat n))"
  by (simp add: toString_def)

lemma digit_value_digit: "d < 10 \<Longrightarrow> digit_value (''0123456789'' ! d) = d"
proof -
  assume "d < 10"
  then have "d = 0 \<or> d = 1 \<or> d = 2 \<or> d = 3 \<or> d = 4 \<or> d = 5 \<or> d = 6 \<or> d = 7 \<or>
      d = 8 \<or> d = 9"
    by arith
  then show ?thesis
    by (elim disjE) (simp_all add: digit_value_def)
qed

lemma decimal_value_snoc:
  "decimal_value (str @ [c]) = 10 * decimal_value str + digit_value c"
  by (simp add: decimal_value_def)

lemma decimal_value_digits: "decimal_value (digits n) = n"
proof (induction n rule: digits.induct)
  case (1 n)
  show ?case
  proof (cases "n < 10")
    case True
    then show ?thesis
      by (simp add: digits_lt10 decimal_value_def digit_value_digit)
  next
    case False
    with "1.IH" have "decimal_value (digits (n div 10)) = n div 10" by simp
    with False show ?thesis
      by (simp add: digits_ge10 decimal_value_snoc digit_value_digit)
  qed
qed

lemma decimal_value_zeros:
  "decimal_value (replicate k CHR ''0'' @ str) = decimal_value str"
proof -
  have "foldl (\<lambda>v c. 10 * v + digit_value c) 0 (replicate k CHR ''0'') = 0"
    by (induction k) (simp_all add: digit_value_def)
  then show ?thesis by (simp add: decimal_value_def)
qed

lemma two_digits_reads_back:
  assumes n: "0 \<le> n"
  shows "decimal_value (two_digits n) = nat n \<and> 2 \<le> length (two_digits n)"
proof -
  have "decimal_value (padStart 2 ''0'' (digits (nat n))) = nat n"
    by (simp add: padStart_def decimal_value_zeros decimal_value_digits)
  moreover have "2 \<le> length (padStart 2 ''0'' (digits (nat n)))"
    by (simp add: padStart_def)
  ultimately show ?thesis using n by (simp add: pad_two_digits)
qed

subsection \<open>Division of doubles\<close>

lemma bits_le: "n < 2 ^ j \<Longrightarrow> bits n \<le> j"
proof (induction j arbitrary: n)
  case 0
  then show ?case by (simp add: bits.simps)
next
  case (Suc j)
  then have "n div 2 < 2 ^ j" by simp
  from Suc.IH[OF this] show ?case by (subst bits.simps) simp
qed

lemma bits_60: "bits 60 = 6"
  by (simp add: bits.simps)

text \<open>
  On a grid of step \<open>1 / p\<close> with \<open>p\<close> at least 32, rounding a multiple of \<open>1 / 60\<close> to the
  grid never reaches the next integer.
\<close>

lemma round_floor:
  fixes a p :: int
  assumes a: "0 \<le> a" and p: "32 \<le> p"
  shows "round_half_even (a * p) 60 div p = a div 60"
proof -
  define m t where "m = a div 60" and "t = a mod 60"
  define D r where "D = (a * p) div 60" and "r = (a * p) mod 60"
  let ?R = "round_half_even (a * p) 60"
  have a_eq: "a = 60 * m + t" and t: "0 \<le> t" "t \<le> 59"
    by (simp_all add: m_def t_def)
  have N: "a * p = 60 * D + r" and r: "0 \<le> r" "r < 60"
    by (simp_all add: D_def r_def)
  have ap: "a * p = 60 * (m * p) + t * p" by (simp add: a_eq algebra_simps)
  have tp: "0 \<le> t * p" "t * p \<le> 59 * p"
    using t p by (simp_all add: mult_right_mono)
  have M: "?R = D \<or> (?R = D + 1 \<and> 30 \<le> r)"
    by (auto simp: round_half_even_def Let_def D_def r_def)
  have lo: "m * p \<le> ?R" using M N r ap tp by linarith
  have hi: "?R < m * p + p" using M N r ap tp p by linarith
  have "?R div p = (?R - m * p + m * p) div p" by simp
  also have "\<dots> = (?R - m * p) div p + m"
    using p by (subst div_mult_self1) simp_all
  also have "(?R - m * p) div p = 0"
    using lo hi by (simp add: div_pos_pos_trivial)
  finally show ?thesis by (simp add: m_def)
qed

lemma Math_floor_div_60:
  assumes "0 \<le> s" and "s < 2 ^ 53"
  shows "Math_floor_div s 60 = s div 60"
proof (cases "s = 0")
  case True
  then show ?thesis by (simp add: Math_floor_div_def)
next
  case False
  with assms have pos: "0 < s" by simp
  from assms have "nat s < 2 ^ 53" by (simp add: nat_less_iff)
  then have b: "bits (nat s) \<le> 53" by (rule bits_le)
  define k0 where "k0 = 53 + int (bits (nat 60)) - int (bits (nat s))"
  define k where "k = (if s * 2 ^ nat k0 < 60 * 2 ^ nat (- k0) * 2 ^ 53 then k0 else k0 - 1)"
  from b have "6 \<le> k0" by (simp add: k0_def bits_60)
  then have k: "5 \<le> k" by (simp add: k_def)
  then have "(2::int) ^ 5 \<le> 2 ^ nat k" by (intro power_increasing) simp_all
  then have p: "(32::int) \<le> 2 ^ nat k" by simp
  from k have nk: "nat (- k) = 0" by simp
  have "number_div s 60 = (round_half_even (s * 2 ^ nat k) (60 * 2 ^ nat (- k)), k)"
    unfolding number_div_def k_def k0_def Let_def by (rule refl)
  with pos have "Math_floor_div s 60 = round_half_even (s * 2 ^ nat k) 60 div 2 ^ nat k"
    by (simp add: Math_floor_div_def nk)
  also have "\<dots> = s div 60" using assms(1) p by (rule round_floor)
  finally show ?thesis .
qed

lemma timeFormat_safe:
  assumes "0 \<le> seconds" and "seconds < 2 ^ 53"
  shows "timeFormat seconds = Some (format_spec seconds)"
proof -
  have e: "60 * (seconds div 60) + seconds mod 60 = seconds" "0 \<le> seconds mod 60"
    by simp_all
  from assms have d0: "0 \<le> seconds div 60"
    by (simp add: pos_imp_zdiv_nonneg_iff)
  with e assms have d1: "seconds div 60 < 2 ^ 53" by linarith
  note d = d0 d1
  have m: "0 \<le> seconds mod 60" "seconds mod 60 < 2 ^ 53"
    by (simp_all add: order.strict_trans[of _ 60])
  from assms d m show ?thesis
    by (simp add: timeFormat_def format_spec_def js_rem_def Math_floor_div_60 toString_safe
        pad_two_digits)
qed

subsection \<open>Consistent timer bookkeeping\<close>

lemma tc_active:
  assumes "timer_consistent s" and "map_of (intervals s) h = Some c"
  shows "intervals s = [(h, c)] \<and> timerOn s = Some h \<and> breakOnVar c = breakOn s \<and> 0 < h"
proof (cases "timerOn s")
  case None
  with assms show ?thesis by (simp add: timer_consistent_def)
next
  case (Some k)
  with assms(1) have m: "map fst (intervals s) = [k]" and k: "0 < k"
    and a: "list_all (\<lambda>(i, c). breakOnVar c = breakOn s) (intervals s)"
    by (simp_all add: timer_consistent_def)
  from m obtain d where d: "intervals s = [(k, d)]"
    by (cases "intervals s") auto
  with assms(2) have "h = k" "c = d" by (simp_all split: if_splits)
  with d a k Some show ?thesis by simp
qed

lemma tc_stopped:
  "timer_consistent s \<Longrightarrow> \<not> running s \<Longrightarrow> intervals s = [] \<and> timerOn s = None"
  by (cases "timerOn s") (auto simp: timer_consistent_def running_def truthy_def)

lemma tc_running:
  assumes "timer_consistent s" and "running s"
  shows "\<exists>h c. timerOn s = Some h \<and> 0 < h \<and> intervals s = [(h, c)] \<and> breakOnVar c = breakOn s"
proof -
  from assms(2) obtain h where h: "timerOn s = Some h" "h \<noteq> 0"
    by (cases "timerOn s") (auto simp: running_def truthy_def)
  with assms(1) have "map fst (intervals s) = [h]"
    and a: "list_all (\<lambda>(i, c). breakOnVar c = breakOn s) (intervals s)"
    by (simp_all add: timer_consistent_def)
  then obtain c where "intervals s = [(h, c)]" by (cases "intervals s") auto
  with a h show ?thesis by auto
qed

lemma tc_reset_intervals:
  assumes "timer_consistent s"
  shows "intervals (reset s) = []"
proof (cases "timerOn s")
  case None
  with assms have "intervals s = []" by (simp add: timer_consistent_def)
  then show ?thesis
    by (simp add: reset_def clearInterval_def Let_def)
next
  case (Some h)
  with assms have "map fst (intervals s) = [h]" by (simp add: timer_consistent_def)
  then obtain c where "intervals s = [(h, c)]" by (cases "intervals s") auto
  with Some show ?thesis
    by (simp add: reset_def clearInterval_def handle_of_timerOn_def Let_def)
qed

lemma reset_fields:
  "breakLength (reset s) = 5 \<and> sessionLength (reset s) = 25 \<and> displayTime (reset s) = 1500 \<and>
   timerOn (reset s) = None \<and> \<not> breakOn (reset s) \<and> darkMode (reset s) = darkMode s \<and>
   nextHandle (reset s) = nextHandle s \<and>
   audioRef (reset s) = audioRef s @ [Pause, SetCurrentTime 0]"
  by (simp add: reset_def clearInterval_def Let_def)

lemma tc_dispatch: "timer_consistent s \<Longrightarrow> timer_consistent (dispatch e s)"
proof (cases e)
  case StartStop
  assume tc: "timer_consistent s"
  show ?thesis
  proof (cases "running s")
    case True
    from tc_running[OF tc True] obtain h c where
      "timerOn s = Some h" "0 < h" "intervals s = [(h, c)]" by blast
    with tc StartStop show ?thesis
      by (simp add: startTimer_def truthy_def clearInterval_def handle_of_timerOn_def
          timer_consistent_def)
  next
    case False
    from tc_stopped[OF tc False] have "intervals s = []" "timerOn s = None" by simp_all
    with tc StartStop show ?thesis
      by (simp add: startTimer_def truthy_def setInterval_def timer_consistent_def)
  qed
next
  case Reset
  assume tc: "timer_consistent s"
  with Reset tc_reset_intervals[OF tc] show ?thesis
    by (simp add: reset_fields timer_consistent_def)
next
  case (IntervalFires h)
  assume tc: "timer_consistent s"
  show ?thesis
  proof (cases "map_of (intervals s) h")
    case None
    with tc IntervalFires show ?thesis by simp
  next
    case (Some c)
    from tc_active[OF tc Some] have "intervals s = [(h, c)]" "timerOn s = Some h"
      "breakOnVar c = breakOn s" "0 < h" by simp_all
    with tc IntervalFires Some show ?thesis
      by (simp add: interval_callback_def playAudio_def set_breakOnVar_def Let_def
          timer_consistent_def)
  qed
qed (simp_all add: handleIncrementDecrement_def toggleDarkMode_def timer_consistent_def)

lemma tc_init: "timer_consistent init_app"
  by (simp add: timer_consistent_def init_app_def)

text \<open>Every state the component can reach from its mount has consistent bookkeeping.\<close>

lemma tc_run: "timer_consistent s \<Longrightarrow> timer_consistent (run evs s)"
  by (induction evs arbitrary: s) (simp_all add: tc_dispatch)

lemma tc_reachable: "timer_consistent (run evs init_app)"
  by (rule tc_run[OF tc_init])

subsection \<open>Numeric ranges\<close>

lemma in_bounds_closure:
  "in_bounds s \<Longrightarrow> map_of (intervals s) h = Some c \<Longrightarrow>
     1 \<le> cl_breakLength c \<and> cl_breakLength c \<le> 60 \<and>
     1 \<le> cl_sessionLength c \<and> cl_sessionLength c \<le> 60"
  by (auto simp: in_bounds_def list_all_iff dest!: map_of_SomeD)

lemma in_bounds_dispatch: "in_bounds s \<Longrightarrow> in_bounds (dispatch e s)"
proof (cases e)
  case StartStop
  assume "in_bounds s"
  with StartStop show ?thesis
    by (auto simp: startTimer_def setInterval_def clearInterval_def in_bounds_def list_all_iff)
next
  case Reset
  assume "in_bounds s"
  with Reset show ?thesis
    by (auto simp: reset_def clearInterval_def in_bounds_def list_all_iff Let_def)
next
  case (IntervalFires h)
  assume ib: "in_bounds s"
  show ?thesis
  proof (cases "map_of (intervals s) h")
    case None
    with ib IntervalFires show ?thesis by simp
  next
    case (Some c)
    from in_bounds_closure[OF ib Some] ib IntervalFires Some show ?thesis
      by (auto simp: interval_callback_def playAudio_def set_breakOnVar_def Let_def
          in_bounds_def list_all_iff split: if_splits)
  qed
qed (auto simp: handleIncrementDecrement_def toggleDarkMode_def in_bounds_def)

lemma in_bounds_run: "in_bounds s \<Longrightarrow> in_bounds (run evs s)"
  by (induction evs arbitrary: s) (simp_all add: in_bounds_dispatch)

lemma in_bounds_init: "in_bounds init_app"
  by (simp add: in_bounds_def init_app_def)

subsection \<open>Counting down\<close>

lemma countdown:
  "map_of (intervals s) h = Some c \<Longrightarrow> int n \<le> displayTime s \<Longrightarrow>
     run (replicate n (IntervalFires h)) s = s\<lparr>displayTime := displayTime s - int n\<rparr>"
proof (induction n arbitrary: s)
  case 0
  then show ?case by simp
next
  case (Suc n)
  let ?t = "s\<lparr>displayTime := displayTime s - 1\<rparr>"
  from Suc.prems have d: "dispatch (IntervalFires h) s = ?t"
    by (simp add: interval_callback_def Let_def)
  from Suc.prems have "map_of (intervals ?t) h = Some c" "int n \<le> displayTime ?t" by simp_all
  from Suc.IH[OF this] d show ?case by simp
qed

lemma started_init:
  "startTimer init_app =
     \<lparr>displayTime = 1500, breakLength = 5, sessionLength = 25, timerOn = Some 1,
      breakOn = False, darkMode = False, audioRef = [],
      intervals = [(1, \<lparr>cl_breakLength = 5, cl_sessionLength = 25, breakOnVar = False\<rparr>)],
      nextHandle = 2\<rparr>"
  by (simp add: startTimer_def setInterval_def truthy_def init_app_def)

lemma after_1500:
  "run (StartStop # replicate 1500 (IntervalFires 1)) init_app =
     \<lparr>displayTime = 0, breakLength = 5, sessionLength = 25, timerOn = Some 1,
      breakOn = False, darkMode = False, audioRef = [],
      intervals = [(1, \<lparr>cl_breakLength = 5, cl_sessionLength = 25, breakOnVar = False\<rparr>)],
      nextHandle = 2\<rparr>"
proof -
  let ?c = "\<lparr>cl_breakLength = 5, cl_sessionLength = 25, breakOnVar = False\<rparr>"
  let ?s = "\<lparr>displayTime = 1500, breakLength = 5, sessionLength = 25, timerOn = Some 1,
      breakOn = False, darkMode = False, audioRef = [], intervals = [(1, ?c)],
      nextHandle = 2\<rparr>"
  have "run (replicate 1500 (IntervalFires 1)) ?s = ?s\<lparr>displayTime := displayTime ?s - int 1500\<rparr>"
    by (rule countdown[where c = ?c]) simp_all
  then show ?thesis
    by (simp add: started_init)
qed

lemma after_1501:
  "run (StartStop # replicate 1501 (IntervalFires 1)) init_app =
     \<lparr>displayTime = 300, breakLength = 5, sessionLength = 25, timerOn = Some 1,
      breakOn = True, darkMode = False, audioRef = [SetCurrentTime 0, Play],
      intervals = [(1, \<lparr>cl_breakLength = 5, cl_sessionLength = 25, breakOnVar = True\<rparr>)],
      nextHandle = 2\<rparr>"
proof -
  have "(1501::nat) = Suc 1500" by simp
  then have "run (StartStop # replicate 1501 (IntervalFires 1)) init_app =
        dispatch (IntervalFires 1) (run (StartStop # replicate 1500 (IntervalFires 1)) init_app)"
    by (simp only: replicate_snoc append_Cons[symmetric] run_append run.simps)
  then show ?thesis
    by (simp only: after_1500)
      (simp add: interval_callback_def playAudio_def set_breakOnVar_def)
qed

subsection \<open>The closure of a running interval\<close>

lemma captured_dispatch:
  assumes "intervals s = [(h, c)]" and "breakOnVar c = breakOn s"
    and "e \<noteq> StartStop" and "e \<noteq> Reset"
  shows "\<exists>c'. intervals (dispatch e s) = [(h, c')] \<and>
           cl_breakLength c' = cl_breakLength c \<and> cl_sessionLength c' = cl_sessionLength c \<and>
           breakOnVar c' = breakOn (dispatch e s)"
  using assms
  by (cases e)
    (auto simp: handleIncrementDecrement_def toggleDarkMode_def interval_callback_def
      playAudio_def set_breakOnVar_def Let_def)

lemma captured_run:
  assumes "intervals s = [(h, c)]" and "breakOnVar c = breakOn s"
    and "\<forall>e\<in>set evs. e \<noteq> StartStop \<and> e \<noteq> Reset"
  shows "\<exists>c'. intervals (run evs s) = [(h, c')] \<and>
           cl_breakLength c' = cl_breakLength c \<and> cl_sessionLength c' = cl_sessionLength c \<and>
           breakOnVar c' = breakOn (run evs s)"
  using assms
proof (induction evs arbitrary: s c)
  case Nil
  then show ?case by simp
next
  case (Cons e evs)
  from Cons.prems have "e \<noteq> StartStop" "e \<noteq> Reset" by simp_all
  from captured_dispatch[OF Cons.prems(1,2) this] obtain c' where
    c': "intervals (dispatch e s) = [(h, c')]" "cl_breakLength c' = cl_breakLength c"
      "cl_sessionLength c' = cl_sessionLength c" "breakOnVar c' = breakOn (dispatch e s)"
    by blast
  from Cons.prems have "\<forall>e\<in>set evs. e \<noteq> StartStop \<and> e \<noteq> Reset" by simp
  from Cons.IH[OF c'(1) c'(4) this] c'(2,3) show ?case by simp
qed


section \<open>The tick\<close>

text \<open>
  Claim C1. A tick of the running engine, that is, a firing of the active interval \<open>h\<close>
  with closure \<open>c\<close>: when \<open>displayTime\<close> is greater than 0 the tick subtracts 1 from it and
  changes nothing else; when \<open>displayTime\<close> is 0 the tick rewinds and plays the alert,
  flips \<open>breakOn\<close> (and the closure's \<open>breakOnVar\<close> with it) and refills \<open>displayTime\<close> with
  the length of the phase it enters, changing nothing else. So a tick that brings
  \<open>displayTime\<close> from 1 to 0 does not roll over: no alert, the phase unchanged; the
  rollover is the next tick, one interval later.
\<close>

theorem tick_step:
  assumes "timer_consistent s" and "map_of (intervals s) h = Some c"
  shows "(0 < displayTime s \<longrightarrow>
            dispatch (IntervalFires h) s = s\<lparr>displayTime := displayTime s - 1\<rparr>) \<and>
         (displayTime s = 0 \<longrightarrow>
            dispatch (IntervalFires h) s =
              s\<lparr>displayTime := (if breakOn s then cl_sessionLength c else cl_breakLength c) * 60,
                breakOn := \<not> breakOn s,
                audioRef := audioRef s @ [SetCurrentTime 0, Play],
                intervals := [(h, c\<lparr>breakOnVar := \<not> breakOn s\<rparr>)]\<rparr>) \<and>
         (displayTime s = 1 \<longrightarrow>
            dispatch (IntervalFires h) s = s\<lparr>displayTime := 0\<rparr> \<and>
            notifications (dispatch (IntervalFires h) (dispatch (IntervalFires h) s)) =
              Suc (notifications s) \<and>
            breakOn (dispatch (IntervalFires h) (dispatch (IntervalFires h) s)) =
              (\<not> breakOn s))"
proof -
  from tc_active[OF assms] have i: "intervals s = [(h, c)]" and b: "breakOnVar c = breakOn s"
    by simp_all
  have 1: "0 < displayTime s \<longrightarrow>
      dispatch (IntervalFires h) s = s\<lparr>displayTime := displayTime s - 1\<rparr>"
    using i by (simp add: interval_callback_def Let_def)
  have 2: "displayTime s = 0 \<longrightarrow>
      dispatch (IntervalFires h) s =
        s\<lparr>displayTime := (if breakOn s then cl_sessionLength c else cl_breakLength c) * 60,
          breakOn := \<not> breakOn s,
          audioRef := audioRef s @ [SetCurrentTime 0, Play],
          intervals := [(h, c\<lparr>breakOnVar := \<not> breakOn s\<rparr>)]\<rparr>"
    using i b by (simp add: interval_callback_def playAudio_def set_breakOnVar_def Let_def)
  have 3: "displayTime s = 1 \<longrightarrow>
      dispatch (IntervalFires h) s = s\<lparr>displayTime := 0\<rparr> \<and>
      notifications (dispatch (IntervalFires h) (dispatch (IntervalFires h) s)) =
        Suc (notifications s) \<and>
      breakOn (dispatch (IntervalFires h) (dispatch (IntervalFires h) s)) = (\<not> breakOn s)"
    using i b
    by (simp add: interval_callback_def playAudio_def set_breakOnVar_def notifications_def
        Let_def)
  from 1 2 3 show ?thesis by blast
qed

theorem tick_step_witness:
  "dispatch (IntervalFires 1)
     \<lparr>displayTime = 2, breakLength = 5, sessionLength = 25, timerOn = Some 1,
      breakOn = False, darkMode = False, audioRef = [],
      intervals = [(1, \<lparr>cl_breakLength = 5, cl_sessionLength = 25, breakOnVar = False\<rparr>)],
      nextHandle = 2\<rparr> =
     \<lparr>displayTime = 1, breakLength = 5, sessionLength = 25, timerOn = Some 1,
      breakOn = False, darkMode = False, audioRef = [],
      intervals = [(1, \<lparr>cl_breakLength = 5, cl_sessionLength = 25, breakOnVar = False\<rparr>)],
      nextHandle = 2\<rparr> \<and>
   dispatch (IntervalFires 1)
     \<lparr>displayTime = 0, breakLength = 5, sessionLength = 25, timerOn = Some 1,
      breakOn = False, darkMode = False, audioRef = [],
      intervals = [(1, \<lparr>cl_breakLength = 5, cl_sessionLength = 25, breakOnVar = False\<rparr>)],
      nextHandle = 2\<rparr> =
     \<lparr>displayTime = 300, breakLength = 5, sessionLength = 25, timerOn = Some 1,
      breakOn = True, darkMode = False, audioRef = [SetCurrentTime 0, Play],
      intervals = [(1, \<lparr>cl_breakLength = 5, cl_sessionLength = 25, breakOnVar = True\<rparr>)],
      nextHandle = 2\<rparr> \<and>
   notifications (dispatch (IntervalFires 1) (dispatch (IntervalFires 1)
     \<lparr>displayTime = 1, breakLength = 5, sessionLength = 25, timerOn = Some 1,
      breakOn = False, darkMode = False, audioRef = [],
      intervals = [(1, \<lparr>cl_breakLength = 5, cl_sessionLength = 25, breakOnVar = False\<rparr>)],
      nextHandle = 2\<rparr>)) = 1"
proof -
  let ?c = "\<lparr>cl_breakLength = 5, cl_sessionLength = 25, breakOnVar = False\<rparr>"
  let ?s = "\<lambda>d. \<lparr>displayTime = d, breakLength = 5, sessionLength = 25, timerOn = Some 1,
      breakOn = False, darkMode = False, audioRef = [], intervals = [(1, ?c)],
      nextHandle = 2\<rparr>"
  have a: "timer_consistent (?s d)" for d by (simp add: timer_consistent_def)
  have b: "map_of (intervals (?s d)) 1 = Some ?c" for d by simp
  from tick_step[OF a b, of 2] tick_step[OF a b, of 0] tick_step[OF a b, of 1]
  show ?thesis by (simp del: dispatch.simps add: notifications_def)
qed

text \<open>
  Claim C2, as stated, fails: started from the default state, the engine has fired no
  alert after exactly 1500 ticks; \<open>displayTime\<close> is 0 and \<open>breakOn\<close> is still false.
\<close>

theorem first_rollover_not_at_1500:
  "displayTime (run (StartStop # replicate 1500 (IntervalFires 1)) init_app) = 0 \<and>
   notifications (run (StartStop # replicate 1500 (IntervalFires 1)) init_app) = 0 \<and>
   \<not> breakOn (run (StartStop # replicate 1500 (IntervalFires 1)) init_app)"
  unfolding after_1500 by (simp add: notifications_def)

text \<open>
  Claim C2, amended. Started from the default state (session 25, break 5), after exactly
  1501 ticks the engine has fired exactly one alert, \<open>breakOn\<close> is true and \<open>displayTime\<close> is
  \<open>breakLength * 60 = 300\<close>.
\<close>

theorem first_rollover_at_1501:
  "notifications (run (StartStop # replicate 1501 (IntervalFires 1)) init_app) = 1 \<and>
   breakOn (run (StartStop # replicate 1501 (IntervalFires 1)) init_app) \<and>
   displayTime (run (StartStop # replicate 1501 (IntervalFires 1)) init_app) =
     breakLength init_app * 60 \<and>
   displayTime (run (StartStop # replicate 1501 (IntervalFires 1)) init_app) = 300"
  unfolding after_1501 by (simp add: notifications_def init_app_def)

section \<open>Adjusting the lengths\<close>

text \<open>
  Claim C3, as stated, fails at 59: the increment reaches 60, and at 60 the guard rejects
  the decrement. This holds for the break length and for the session length.
\<close>

theorem adjust_roundtrip_fails_at_59:
  "breakLength (init_app\<lparr>breakLength := 59\<rparr>) = 59 \<and>
   breakLength (handleIncrementDecrement ''break'' (- 1)
     (handleIncrementDecrement ''break'' 1 (init_app\<lparr>breakLength := 59\<rparr>))) \<noteq> 59 \<and>
   sessionLength (init_app\<lparr>sessionLength := 59\<rparr>) = 59 \<and>
   sessionLength (handleIncrementDecrement ''session'' (- 1)
     (handleIncrementDecrement ''session'' 1 (init_app\<lparr>sessionLength := 59\<rparr>))) \<noteq> 59"
  by (simp add: handleIncrementDecrement_def init_app_def)

text \<open>
  Claim C3, amended. For every value \<open>v\<close> from 2 to 58, an increment followed by a decrement
  of the break length, or of the session length, returns that length to \<open>v\<close>.
\<close>

theorem adjust_roundtrip:
  assumes "2 \<le> v" and "v \<le> 58"
  shows "(breakLength s = v \<longrightarrow>
            breakLength (handleIncrementDecrement ''break'' (- 1)
              (handleIncrementDecrement ''break'' 1 s)) = v) \<and>
         (sessionLength s = v \<longrightarrow>
            sessionLength (handleIncrementDecrement ''session'' (- 1)
              (handleIncrementDecrement ''session'' 1 s)) = v)"
  using assms by (simp add: handleIncrementDecrement_def)

theorem adjust_roundtrip_witness:
  "breakLength (handleIncrementDecrement ''break'' (- 1)
     (handleIncrementDecrement ''break'' 1 (init_app\<lparr>breakLength := 58\<rparr>))) = 58 \<and>
   sessionLength (handleIncrementDecrement ''session'' (- 1)
     (handleIncrementDecrement ''session'' 1 (init_app\<lparr>sessionLength := 2\<rparr>))) = 2"
  using adjust_roundtrip[of 58 "init_app\<lparr>breakLength := 58\<rparr>"]
    adjust_roundtrip[of 2 "init_app\<lparr>sessionLength := 2\<rparr>"]
  by simp

text \<open>
  Claim C4. The guard of an adjustment reads the length before the adjustment: at 1 or
  below and at 60 or above the call changes nothing (and nothing is raised), otherwise
  the length becomes the old length plus the amount. The amount is any number here; the
  buttons pass 1 and -1. In particular an increment at 60 or above and a decrement at 1
  or below change nothing.
\<close>

theorem adjust_guard:
  "(breakLength s \<le> 1 \<or> 60 \<le> breakLength s \<longrightarrow>
      handleIncrementDecrement ''break'' amount s = s) \<and>
   (1 < breakLength s \<and> breakLength s < 60 \<longrightarrow>
      handleIncrementDecrement ''break'' amount s = s\<lparr>breakLength := breakLength s + amount\<rparr>) \<and>
   (sessionLength s \<le> 1 \<or> 60 \<le> sessionLength s \<longrightarrow>
      handleIncrementDecrement ''session'' amount s = s) \<and>
   (1 < sessionLength s \<and> sessionLength s < 60 \<longrightarrow>
      handleIncrementDecrement ''session'' amount s =
        s\<lparr>sessionLength := sessionLength s + amount,
          displayTime := (sessionLength s + amount) * 60\<rparr>)"
  by (auto simp: handleIncrementDecrement_def)

theorem adjust_guard_witness:
  "handleIncrementDecrement ''break'' 1 (init_app\<lparr>breakLength := 60\<rparr>) =
     init_app\<lparr>breakLength := 60\<rparr> \<and>
   handleIncrementDecrement ''session'' (- 1) (init_app\<lparr>sessionLength := 1\<rparr>) =
     init_app\<lparr>sessionLength := 1\<rparr> \<and>
   handleIncrementDecrement ''break'' (- 1) (init_app\<lparr>breakLength := 59\<rparr>) =
     init_app\<lparr>breakLength := 58\<rparr> \<and>
   sessionLength (handleIncrementDecrement ''session'' 1 (init_app\<lparr>sessionLength := 2\<rparr>)) = 3"
  using adjust_guard[of "init_app\<lparr>breakLength := 60\<rparr>" 1]
    adjust_guard[of "init_app\<lparr>sessionLength := 1\<rparr>" "- 1"]
    adjust_guard[of "init_app\<lparr>breakLength := 59\<rparr>" "- 1"]
    adjust_guard[of "init_app\<lparr>sessionLength := 2\<rparr>" 1]
  by (simp add: init_app_def)

text \<open>
  Claim C5. An adjustment of the session length that passes the guard sets \<open>displayTime\<close>
  to the new session length times 60, whatever the state: running or stopped, in session
  or on break. No adjustment of the break length changes \<open>displayTime\<close>.
\<close>

theorem adjust_displayTime:
  "(1 < sessionLength s \<and> sessionLength s < 60 \<longrightarrow>
      displayTime (handleIncrementDecrement ''session'' amount s) =
        (sessionLength s + amount) * 60) \<and>
   displayTime (handleIncrementDecrement ''break'' amount s) = displayTime s"
  by (simp add: handleIncrementDecrement_def)

theorem adjust_displayTime_witness:
  "displayTime (handleIncrementDecrement ''session'' 1
     \<lparr>displayTime = 17, breakLength = 5, sessionLength = 25, timerOn = Some 1,
      breakOn = True, darkMode = False, audioRef = [SetCurrentTime 0, Play],
      intervals = [(1, \<lparr>cl_breakLength = 5, cl_sessionLength = 25, breakOnVar = True\<rparr>)],
      nextHandle = 2\<rparr>) = 1560 \<and>
   displayTime (handleIncrementDecrement ''break'' 1
     \<lparr>displayTime = 17, breakLength = 5, sessionLength = 25, timerOn = Some 1,
      breakOn = True, darkMode = False, audioRef = [SetCurrentTime 0, Play],
      intervals = [(1, \<lparr>cl_breakLength = 5, cl_sessionLength = 25, breakOnVar = True\<rparr>)],
      nextHandle = 2\<rparr>) = 17"
  using adjust_displayTime[of
     "\<lparr>displayTime = 17, breakLength = 5, sessionLength = 25, timerOn = Some 1,
      breakOn = True, darkMode = False, audioRef = [SetCurrentTime 0, Play],
      intervals = [(1, \<lparr>cl_breakLength = 5, cl_sessionLength = 25, breakOnVar = True\<rparr>)],
      nextHandle = 2\<rparr>" 1]
  by simp


section \<open>Reset, start and stop\<close>

text \<open>
  Claim C6. From every state, \<open>reset\<close> returns (nothing in it can fail once the audio
  element is mounted) and yields break length 5, session length 25, \<open>displayTime\<close> 1500,
  the engine stopped and \<open>breakOn\<close> false; the alert is paused and then rewound to
  position 0; the interval \<open>timerOn\<close> named is no longer active, and with consistent
  bookkeeping (every state the component reaches) no interval is active at all.
\<close>

theorem reset_defaults:
  "breakLength (reset s) = 5 \<and> sessionLength (reset s) = 25 \<and> displayTime (reset s) = 1500 \<and>
   \<not> running (reset s) \<and> timerOn (reset s) = None \<and> \<not> breakOn (reset s) \<and>
   audioRef (reset s) = audioRef s @ [Pause, SetCurrentTime 0] \<and>
   map_of (intervals (reset s)) (handle_of_timerOn (timerOn s)) = None \<and>
   (timer_consistent s \<longrightarrow> intervals (reset s) = [])"
proof -
  have "map_of (intervals (reset s)) (handle_of_timerOn (timerOn s)) = None"
    by (auto simp: reset_def clearInterval_def Let_def map_of_eq_None_iff)
  moreover have "\<not> running (reset s)"
    by (simp add: running_def truthy_def reset_fields)
  ultimately show ?thesis
    by (simp add: reset_fields tc_reset_intervals)
qed

theorem reset_defaults_witness:
  "reset \<lparr>displayTime = 17, breakLength = 60, sessionLength = 1, timerOn = Some 3,
      breakOn = True, darkMode = True, audioRef = [SetCurrentTime 0, Play],
      intervals = [(3, \<lparr>cl_breakLength = 7, cl_sessionLength = 2, breakOnVar = True\<rparr>)],
      nextHandle = 4\<rparr> =
     \<lparr>displayTime = 1500, breakLength = 5, sessionLength = 25, timerOn = None,
      breakOn = False, darkMode = True,
      audioRef = [SetCurrentTime 0, Play, Pause, SetCurrentTime 0],
      intervals = [], nextHandle = 4\<rparr>"
proof -
  let ?s = "\<lparr>displayTime = 17, breakLength = 60, sessionLength = 1, timerOn = Some 3,
      breakOn = True, darkMode = True, audioRef = [SetCurrentTime 0, Play],
      intervals = [(3, \<lparr>cl_breakLength = 7, cl_sessionLength = 2, breakOnVar = True\<rparr>)],
      nextHandle = 4\<rparr>"
  have tc: "timer_consistent ?s" by (simp add: timer_consistent_def)
  have "darkMode (reset ?s) = True" "nextHandle (reset ?s) = 4"
    by (simp_all add: reset_fields)
  with reset_defaults[of ?s] tc show ?thesis
    by (cases "reset ?s") simp
qed

text \<open>
  Claim C7. From a stopped state, the first \<open>startTimer\<close> makes the engine running: it
  registers an interval under the handle \<open>nextHandle s\<close>, stores that handle in \<open>timerOn\<close>,
  and a firing of that interval decrements a positive \<open>displayTime\<close>. The second
  \<open>startTimer\<close> makes the engine stopped again and clears that interval: afterwards it
  is no longer registered and no interval is active, so whatever handles the browser
  is asked to fire, the state (and \<open>displayTime\<close> in it) never changes. The two calls
  together change nothing but the handle the next \<open>setInterval\<close> will return. The same
  holds when the second call comes after any events other than start/stop and reset,
  ticks among them.
\<close>

theorem start_twice:
  assumes "timer_consistent s" and "\<not> running s"
  shows "running (startTimer s) \<and>
         timerOn (startTimer s) = Some (nextHandle s) \<and>
         map_of (intervals (startTimer s)) (nextHandle s) =
           Some \<lparr>cl_breakLength = breakLength s, cl_sessionLength = sessionLength s,
                 breakOnVar = breakOn s\<rparr> \<and>
         (0 < displayTime s \<longrightarrow>
            displayTime (dispatch (IntervalFires (nextHandle s)) (startTimer s)) =
              displayTime s - 1) \<and>
         startTimer (startTimer s) = s\<lparr>nextHandle := Suc (nextHandle s)\<rparr> \<and>
         \<not> running (startTimer (startTimer s)) \<and>
         map_of (intervals (startTimer (startTimer s))) (nextHandle s) = None \<and>
         intervals (startTimer (startTimer s)) = [] \<and>
         run (map IntervalFires hs) (startTimer (startTimer s)) = startTimer (startTimer s) \<and>
         ((\<forall>e\<in>set evs. e \<noteq> StartStop \<and> e \<noteq> Reset) \<longrightarrow>
            map_of (intervals (run evs (startTimer s))) (nextHandle s) \<noteq> None \<and>
            \<not> running (startTimer (run evs (startTimer s))) \<and>
            intervals (startTimer (run evs (startTimer s))) = [] \<and>
            run (map IntervalFires hs) (startTimer (run evs (startTimer s))) =
              startTimer (run evs (startTimer s)))"
proof -
  let ?c = "\<lparr>cl_breakLength = breakLength s, cl_sessionLength = sessionLength s,
             breakOnVar = breakOn s\<rparr>"
  from tc_stopped[OF assms] have i: "intervals s = []" and t: "timerOn s = None" by simp_all
  from assms(1) have n: "0 < nextHandle s" by (simp add: timer_consistent_def)
  have 1: "startTimer s = s\<lparr>timerOn := Some (nextHandle s), nextHandle := Suc (nextHandle s),
      intervals := [(nextHandle s, ?c)]\<rparr>"
    using i t by (simp add: startTimer_def setInterval_def truthy_def)
  have 2: "startTimer (startTimer s) = s\<lparr>nextHandle := Suc (nextHandle s)\<rparr>"
    using n i t by (simp add: 1) (simp add: startTimer_def truthy_def clearInterval_def
        handle_of_timerOn_def)
  have 3: "run (map IntervalFires hs) u = u" if "intervals u = []" for u
    using that by (induction hs) simp_all
  have 4: "0 < displayTime s \<longrightarrow>
      displayTime (dispatch (IntervalFires (nextHandle s)) (startTimer s)) = displayTime s - 1"
    by (simp add: 1 interval_callback_def Let_def)
  have 5: "map_of (intervals (run evs (startTimer s))) (nextHandle s) \<noteq> None \<and>
      \<not> running (startTimer (run evs (startTimer s))) \<and>
      intervals (startTimer (run evs (startTimer s))) = [] \<and>
      run (map IntervalFires hs) (startTimer (run evs (startTimer s))) =
        startTimer (run evs (startTimer s))"
    if evs: "\<forall>e\<in>set evs. e \<noteq> StartStop \<and> e \<noteq> Reset"
  proof -
    let ?u = "run evs (startTimer s)"
    have "timer_consistent (dispatch StartStop s)" using assms(1) by (rule tc_dispatch)
    then have tc: "timer_consistent ?u" by (simp add: tc_run)
    have "intervals (startTimer s) = [(nextHandle s, ?c)]"
      and "breakOnVar ?c = breakOn (startTimer s)"
      by (simp_all add: 1)
    from captured_run[OF this evs] obtain c' where c': "intervals ?u = [(nextHandle s, c')]"
      by blast
    then have m: "map_of (intervals ?u) (nextHandle s) = Some c'" by simp
    from tc_active[OF tc m] have "timerOn ?u = Some (nextHandle s)" by simp
    with c' n have "intervals (startTimer ?u) = []" "timerOn (startTimer ?u) = None"
      by (simp_all add: startTimer_def truthy_def clearInterval_def handle_of_timerOn_def)
    with m show ?thesis by (simp add: 3 running_def truthy_def)
  qed
  have 6: "running (startTimer s)" "timerOn (startTimer s) = Some (nextHandle s)"
    "map_of (intervals (startTimer s)) (nextHandle s) = Some ?c"
    using n by (simp_all add: 1 running_def truthy_def)
  have 7: "\<not> running (startTimer (startTimer s))"
    "map_of (intervals (startTimer (startTimer s))) (nextHandle s) = None"
    "intervals (startTimer (startTimer s)) = []"
    using i t by (simp_all add: 2 running_def truthy_def)
  from 7(3) have 8: "run (map IntervalFires hs) (startTimer (startTimer s)) =
      startTimer (startTimer s)" by (rule 3)
  from 2 4 5 6 7 8 show ?thesis by blast
qed

theorem start_twice_witness:
  "running (startTimer init_app) \<and>
   map_of (intervals (startTimer init_app)) (nextHandle init_app) =
     Some \<lparr>cl_breakLength = 5, cl_sessionLength = 25, breakOnVar = False\<rparr> \<and>
   displayTime (dispatch (IntervalFires (nextHandle init_app)) (startTimer init_app)) = 1499 \<and>
   \<not> running (startTimer (startTimer init_app)) \<and>
   map_of (intervals (startTimer (startTimer init_app))) (nextHandle init_app) = None \<and>
   run (map IntervalFires [1, 1, 2]) (startTimer (startTimer init_app)) =
     init_app\<lparr>nextHandle := 2\<rparr> \<and>
   intervals (startTimer (run [IntervalFires 1, BreakIncrement] (startTimer init_app))) = []"
proof -
  have r: "\<not> running init_app" by (simp add: running_def truthy_def init_app_def)
  note twice = start_twice[OF tc_init r, of "[1, 1, 2]" "[IntervalFires 1, BreakIncrement]"]
  have e: "\<forall>e\<in>set [IntervalFires 1, BreakIncrement]. e \<noteq> StartStop \<and> e \<noteq> Reset" by simp
  have v: "init_app\<lparr>nextHandle := Suc (nextHandle init_app)\<rparr> = init_app\<lparr>nextHandle := 2\<rparr>"
    "breakLength init_app = 5" "sessionLength init_app = 25" "breakOn init_app = False"
    "0 < displayTime init_app" "displayTime init_app - 1 = 1499"
    by (simp_all add: init_app_def)
  from twice e v show ?thesis by metis
qed

text \<open>
  Claim C8. The lengths a rollover uses are those of the moment \<open>startTimer\<close> created the
  interval, not those of the moment of the rollover. Start a stopped engine in state
  \<open>s\<close>; let any events follow except a further start/stop or a reset (adjustments of
  either length, ticks, the dark mode button); whenever \<open>displayTime\<close> is 0 then, the
  next tick is a rollover that writes the length \<open>s\<close> had for the phase entered, times 60.
\<close>

theorem rollover_captured:
  assumes "timer_consistent s" and "\<not> running s"
    and "\<forall>e\<in>set evs. e \<noteq> StartStop \<and> e \<noteq> Reset"
    and "displayTime (run evs (startTimer s)) = 0"
  shows "displayTime (dispatch (IntervalFires (nextHandle s)) (run evs (startTimer s))) =
           (if breakOn (run evs (startTimer s)) then sessionLength s else breakLength s) * 60 \<and>
         breakOn (dispatch (IntervalFires (nextHandle s)) (run evs (startTimer s))) =
           (\<not> breakOn (run evs (startTimer s)))"
proof -
  let ?c = "\<lparr>cl_breakLength = breakLength s, cl_sessionLength = sessionLength s,
             breakOnVar = breakOn s\<rparr>"
  from tc_stopped[OF assms(1,2)] have i: "intervals s = []" and t: "timerOn s = None"
    by simp_all
  then have 1: "intervals (startTimer s) = [(nextHandle s, ?c)]"
    and 2: "breakOnVar ?c = breakOn (startTimer s)"
    by (simp_all add: startTimer_def setInterval_def truthy_def)
  from captured_run[OF 1 2 assms(3)] obtain c' where
    c': "intervals (run evs (startTimer s)) = [(nextHandle s, c')]"
      "cl_breakLength c' = breakLength s" "cl_sessionLength c' = sessionLength s"
      "breakOnVar c' = breakOn (run evs (startTimer s))"
    by auto
  with assms(4) show ?thesis
    by (simp add: interval_callback_def playAudio_def set_breakOnVar_def Let_def)
qed

text \<open>
  At a concrete input: the break length is raised to 6 after the start, and the rollover
  into the break still writes \<open>5 * 60\<close>.
\<close>

theorem rollover_captured_witness:
  "displayTime (dispatch (IntervalFires 2)
      (run [BreakIncrement] (startTimer (init_app\<lparr>displayTime := 0, nextHandle := 2\<rparr>)))) = 300 \<and>
   breakLength (run [BreakIncrement] (startTimer (init_app\<lparr>displayTime := 0, nextHandle := 2\<rparr>))) = 6"
proof -
  let ?s = "init_app\<lparr>displayTime := 0, nextHandle := 2\<rparr>"
  have a: "timer_consistent ?s" by (simp add: timer_consistent_def init_app_def)
  have b: "\<not> running ?s" by (simp add: running_def truthy_def init_app_def)
  have c: "\<forall>e\<in>set [BreakIncrement]. e \<noteq> StartStop \<and> e \<noteq> Reset" by simp
  have d: "displayTime (run [BreakIncrement] (startTimer ?s)) = 0"
    by (simp add: startTimer_def setInterval_def truthy_def handleIncrementDecrement_def
        init_app_def)
  from rollover_captured[OF a b c d] show ?thesis
    by (simp add: startTimer_def setInterval_def truthy_def handleIncrementDecrement_def
        init_app_def)
qed

section \<open>The remaining time is never negative\<close>

text \<open>
  Claim C9. In every state the component reaches from its mount, by any sequence of
  clicks on its buttons and firings of intervals, \<open>displayTime\<close> is at least 0.
\<close>

theorem displayTime_nonneg: "0 \<le> displayTime (run evs init_app)"
  using in_bounds_run[OF in_bounds_init, of evs] by (simp add: in_bounds_def)

section \<open>Formatting\<close>

text \<open>
  Claim C10, as stated, fails for large numbers of seconds. 67553994410557496 is a
  double, and dividing it by 60 rounds up to the next integer: the minutes printed are
  1125899906842625, one more than the seconds divided by 60 and rounded down.
\<close>

theorem timeFormat_rounds_up:
  "(0::int) \<le> 67553994410557496 \<and> is_double 67553994410557496 \<and>
   timeFormat 67553994410557496 = Some ''1125899906842625:56'' \<and>
   format_spec 67553994410557496 = ''1125899906842624:56'' \<and>
   timeFormat 67553994410557496 \<noteq> Some (format_spec 67553994410557496)"
proof -
  have 1: "is_double 67553994410557496"
    by (simp add: is_double_def bits.simps)
  have 2: "Math_floor_div 67553994410557496 60 = 1125899906842625"
    by (simp add: Math_floor_div_def number_div_def round_half_even_def bits.simps Let_def)
  have 3: "timeFormat 67553994410557496 = Some ''1125899906842625:56''"
    by (simp add: timeFormat_def 2)
      (simp add: toString_def js_rem_def padStart_def digits.simps)
  have 4: "format_spec 67553994410557496 = ''1125899906842624:56''"
    by (simp add: format_spec_def two_digits_def digits.simps)
  from 1 3 4 show ?thesis by simp
qed

text \<open>
  Claim C10, amended. For every whole number of seconds from 0 up to (not including)
  \<open>2 ^ 53\<close>, \<open>timeFormat\<close> returns the minutes (the seconds divided by 60, rounded down) and
  the seconds modulo 60, each written with two digits (more when the minutes have more)
  and joined by a colon: the two parts read back as those two numbers, and the seconds
  part has exactly two characters. 0 gives 00:00, 65 gives 01:05 and 3599 gives 59:59.
\<close>

theorem timeFormat_spec:
  "(0 \<le> seconds \<and> seconds < 2 ^ 53 \<longrightarrow>
      timeFormat seconds = Some (format_spec seconds) \<and>
      decimal_value (two_digits (seconds div 60)) = nat (seconds div 60) \<and>
      decimal_value (two_digits (seconds mod 60)) = nat (seconds mod 60) \<and>
      2 \<le> length (two_digits (seconds div 60)) \<and>
      length (two_digits (seconds mod 60)) = 2) \<and>
   timeFormat 0 = Some ''00:00'' \<and> timeFormat 65 = Some ''01:05'' \<and>
   timeFormat 3599 = Some ''59:59''"
proof -
  have ex: "timeFormat 0 = Some (format_spec 0)" "timeFormat 65 = Some (format_spec 65)"
    "timeFormat 3599 = Some (format_spec 3599)"
    by (simp_all add: timeFormat_safe)
  have "length (two_digits (seconds mod 60)) = 2"
    by (simp add: two_digits_def order.strict_trans[of _ 60])
  moreover have "0 \<le> seconds \<longrightarrow> 0 \<le> seconds div 60"
    by (simp add: pos_imp_zdiv_nonneg_iff)
  ultimately show ?thesis
    by (simp add: timeFormat_safe two_digits_reads_back ex)
      (simp add: format_spec_def two_digits_def)
qed

theorem timeFormat_spec_witness:
  "(0::int) \<le> 754 \<and> (754::int) < 2 ^ 53 \<and> timeFormat 754 = Some ''12:34''"
  using timeFormat_spec[of 754] by (simp add: format_spec_def two_digits_def)

end
